theory Spec2Isabelle
  imports Complex_Main "HOL-Library.Sublist"
begin

section \<open>Python values carried by a raw job record\<close>

text \<open>
  The scraper receives a JSON array from the provider. A record is a Python dict whose
  values are arbitrary JSON values. Exceptions are values: every function that can raise
  returns \<open>error + 'a\<close> with \<open>Inl\<close> for the exception.

  Strings are byte strings (\<open>char list\<close>, UTF-8), on which membership, \<open>split\<close> and
  \<open>replace\<close> with an ASCII pattern act as they do on the text. A float is carried as the
  decimal number that Python prints for it: \<open>Fin neg m e\<close> stands for
  \<open>(-1)^neg * m * 10^e\<close>; the order of these decimals is the order of the floats.
  The functions \<open>float\<close>, \<open>str.lower\<close> and \<open>str.strip\<close> of the Python runtime reach
  over all of Unicode and over the binary format of floats. They are a parameter of the
  model (the record \<open>pylib\<close> below), so that what is proved of the program holds with
  the runtime's own functions.
\<close>

datatype error = AttributeError | TypeError | OverflowError

datatype pyfloat = Fin bool nat int | PosInf | NegInf | NaN

datatype pyval =
    PNone
  | PBool bool
  | PInt int
  | PFloat pyfloat
  | PStr string
  | PList "pyval list"
  | PDict "(string \<times> pyval) list"

type_synonym pydict = "(string \<times> pyval) list"

definition ebind :: "error + 'a \<Rightarrow> ('a \<Rightarrow> error + 'b) \<Rightarrow> error + 'b" where
  "ebind m f = (case m of Inl e \<Rightarrow> Inl e | Inr x \<Rightarrow> f x)"

subsection \<open>Truth value testing and \<open>or\<close>\<close>

fun truthy :: "pyval \<Rightarrow> bool" where
  "truthy PNone = False"
| "truthy (PBool b) = b"
| "truthy (PInt n) = (n \<noteq> 0)"
| "truthy (PFloat (Fin neg m e)) = (m \<noteq> 0)"
| "truthy (PFloat _) = True"
| "truthy (PStr s) = (s \<noteq> [])"
| "truthy (PList xs) = (xs \<noteq> [])"
| "truthy (PDict d) = (d \<noteq> [])"

definition py_or :: "pyval \<Rightarrow> pyval \<Rightarrow> pyval" where
  "py_or a b = (if truthy a then a else b)"

subsection \<open>Float comparison\<close>

definition fin_val :: "bool \<Rightarrow> nat \<Rightarrow> int \<Rightarrow> rat" where
  "fin_val neg m e =
     (if neg then - 1 else 1) * of_nat m *
     (if 0 \<le> e then 10 ^ nat e else 1 / 10 ^ nat (- e))"

fun fl_lt :: "pyfloat \<Rightarrow> pyfloat \<Rightarrow> bool" where
  "fl_lt NaN _ = False"
| "fl_lt _ NaN = False"
| "fl_lt PosInf _ = False"
| "fl_lt _ PosInf = True"
| "fl_lt _ NegInf = False"
| "fl_lt NegInf _ = True"
| "fl_lt (Fin n1 m1 e1) (Fin n2 m2 e2) = (fin_val n1 m1 e1 < fin_val n2 m2 e2)"

fun fl_le :: "pyfloat \<Rightarrow> pyfloat \<Rightarrow> bool" where
  "fl_le NaN _ = False"
| "fl_le _ NaN = False"
| "fl_le _ PosInf = True"
| "fl_le PosInf _ = False"
| "fl_le NegInf _ = True"
| "fl_le _ NegInf = False"
| "fl_le (Fin n1 m1 e1) (Fin n2 m2 e2) = (fin_val n1 m1 e1 \<le> fin_val n2 m2 e2)"

definition fl_zero :: pyfloat where
  "fl_zero = Fin False 0 0"

subsection \<open>\<open>str()\<close> and \<open>repr()\<close>\<close>

definition digit_char :: "nat \<Rightarrow> char" where
  "digit_char d = ''0123456789'' ! d"

definition hex_char :: "nat \<Rightarrow> char" where
  "hex_char d = ''0123456789abcdef'' ! d"

function str_nat :: "nat \<Rightarrow> string" where
  "str_nat n = (if n < 10 then [digit_char n] else str_nat (n div 10) @ [digit_char (n mod 10)])"
  by pat_completeness auto
termination
  by (relation "measure id") auto

declare str_nat.simps [simp del]

definition str_int :: "int \<Rightarrow> string" where
  "str_int i = (if i < 0 then CHR ''-'' # str_nat (nat (- i)) else str_nat (nat i))"

definition strip_zeros :: "string \<Rightarrow> string" where
  "strip_zeros ds = rev (dropWhile (\<lambda>c. c = CHR ''0'') (rev ds))"

definition exp_str :: "int \<Rightarrow> string" where
  "exp_str x =
     (if x < 0 then CHR ''-'' else CHR ''+'') #
     (let s = str_nat (nat \<bar>x\<bar>) in if length s < 2 then CHR ''0'' # s else s)"

text \<open>
  \<open>repr(float)\<close>: the digits without trailing zeros; scientific notation when the
  decimal point lies at or left of \<open>-4\<close> or right of \<open>16\<close>, fixed notation otherwise,
  with \<open>.0\<close> appended to an integral value.
\<close>

definition fin_repr :: "nat \<Rightarrow> int \<Rightarrow> string" where
  "fin_repr m e =
     (if m = 0 then ''0.0''
      else
        let all = str_nat m;
            ds = strip_zeros all;
            n = int (length ds);
            decpt = int (length all) + e
        in if decpt \<le> - 4 \<or> 16 < decpt then
             (case ds of
                [] \<Rightarrow> []
              | d # rest \<Rightarrow> d # (if rest \<noteq> [] then CHR ''.'' # rest else [])) @
             CHR ''e'' # exp_str (decpt - 1)
           else if decpt \<le> 0 then ''0.'' @ replicate (nat (- decpt)) CHR ''0'' @ ds
           else if n \<le> decpt then ds @ replicate (nat (decpt - n)) CHR ''0'' @ ''.0''
           else take (nat decpt) ds @ CHR ''.'' # drop (nat decpt) ds)"

fun float_repr :: "pyfloat \<Rightarrow> string" where
  "float_repr PosInf = ''inf''"
| "float_repr NegInf = ''-inf''"
| "float_repr NaN = ''nan''"
| "float_repr (Fin neg m e) = (if neg then ''-'' else []) @ fin_repr m e"

text \<open>
  \<open>repr(str)\<close>: single quotes unless the text has a single quote and no double quote;
  the quote and the backslash are escaped, control characters are written as
  \<open>\t\<close>, \<open>\n\<close>, \<open>\r\<close> or \<open>\xhh\<close>.
\<close>

definition repr_char :: "char \<Rightarrow> char \<Rightarrow> string" where
  "repr_char q c =
     (if c = q \<or> c = CHR 0x5C then [CHR 0x5C, c]
      else if c = CHR 0x09 then [CHR 0x5C, CHR ''t'']
      else if c = CHR 0x0A then [CHR 0x5C, CHR ''n'']
      else if c = CHR 0x0D then [CHR 0x5C, CHR ''r'']
      else if (of_char c :: nat) < 32 \<or> (of_char c :: nat) = 127 then
        [CHR 0x5C, CHR ''x'', hex_char (of_char c div 16), hex_char (of_char c mod 16)]
      else [c])"

definition repr_str :: "string \<Rightarrow> string" where
  "repr_str s =
     (let q = (if CHR 0x27 \<in> set s \<and> CHR 0x22 \<notin> set s then CHR 0x22 else CHR 0x27)
      in q # concat (map (repr_char q) s) @ [q])"

fun join_comma :: "string list \<Rightarrow> string" where
  "join_comma [] = []"
| "join_comma [x] = x"
| "join_comma (x # y # ys) = x @ '', '' @ join_comma (y # ys)"

fun py_repr :: "pyval \<Rightarrow> string" where
  "py_repr PNone = ''None''"
| "py_repr (PBool b) = (if b then ''True'' else ''False'')"
| "py_repr (PInt i) = str_int i"
| "py_repr (PFloat f) = float_repr f"
| "py_repr (PStr s) = repr_str s"
| "py_repr (PList xs) = ''['' @ join_comma (map py_repr xs) @ '']''"
| "py_repr (PDict d) =
     ''{'' @ join_comma (map (\<lambda>kv. repr_str (fst kv) @ '': '' @ py_repr (snd kv)) d) @ ''}''"

definition py_str :: "pyval \<Rightarrow> string" where
  "py_str v = (case v of PStr s \<Rightarrow> s | _ \<Rightarrow> py_repr v)"

subsection \<open>String methods\<close>

text \<open>
  The substring test \<open>p in s\<close>, \<open>s.replace(x, "")\<close> for a character \<open>x\<close> and
  \<open>s.split(sep)\<close> at a character.
\<close>

fun py_contains :: "string \<Rightarrow> string \<Rightarrow> bool" where
  "py_contains p [] = (p = [])"
| "py_contains p (c # cs) = (prefix p (c # cs) \<or> py_contains p cs)"

definition remove_char :: "char \<Rightarrow> string \<Rightarrow> string" where
  "remove_char x s = filter (\<lambda>c. c \<noteq> x) s"

fun py_split :: "char \<Rightarrow> string \<Rightarrow> string list" where
  "py_split sep [] = [[]]"
| "py_split sep (c # cs) =
     (if c = sep then [] # py_split sep cs
      else (case py_split sep cs of [] \<Rightarrow> [[c]] | w # ws \<Rightarrow> (c # w) # ws))"

subsection \<open>The runtime library as a parameter\<close>

text \<open>
  \<open>lib_float\<close> is \<open>float\<close> applied to a text, with \<open>None\<close> for the \<open>ValueError\<close>
  that the caller catches; \<open>lib_lower\<close> is \<open>str.lower\<close> and \<open>lib_strip\<close> is
  \<open>str.strip\<close>. The functions of the program take the library as their first argument.
\<close>

record pylib =
  lib_float :: "string \<Rightarrow> pyfloat option"
  lib_lower :: "string \<Rightarrow> string"
  lib_strip :: "string \<Rightarrow> string"

subsection \<open>An ASCII instance of the library\<close>

text \<open>
  An instance to run examples with. It agrees with the runtime on ASCII text, and for
  \<open>float\<close> on a number of at most 15 significant digits in the normal range of floats,
  which it keeps as it is written. No general statement below depends on it.

  \<open>ascii_strip\<close> removes the ten ASCII whitespace characters of \<open>str.strip\<close> from both
  ends, \<open>ascii_lower\<close> lowers the letters A to Z. \<open>ascii_float\<close> reads the grammar
  that \<open>float\<close> accepts: surrounding whitespace (the six characters of C's
  \<open>isspace\<close>), an optional sign, then \<open>inf\<close>, \<open>infinity\<close> or \<open>nan\<close> in any case,
  or a decimal number with an optional exponent, whose digits may be grouped by single
  underscores. \<open>None\<close> stands for the \<open>ValueError\<close>.
\<close>

definition is_space :: "char \<Rightarrow> bool" where
  "is_space c = (c \<in> set [CHR 0x20, CHR 0x09, CHR 0x0A, CHR 0x0B, CHR 0x0C, CHR 0x0D,
                           CHR 0x1C, CHR 0x1D, CHR 0x1E, CHR 0x1F])"

definition ascii_strip :: "string \<Rightarrow> string" where
  "ascii_strip s = rev (dropWhile is_space (rev (dropWhile is_space s)))"

definition lower_char :: "char \<Rightarrow> char" where
  "lower_char c =
     (case map_of (zip ''ABCDEFGHIJKLMNOPQRSTUVWXYZ'' ''abcdefghijklmnopqrstuvwxyz'') c of
        Some l \<Rightarrow> l
      | None \<Rightarrow> c)"

definition ascii_lower :: "string \<Rightarrow> string" where
  "ascii_lower s = map lower_char s"

definition is_digit :: "char \<Rightarrow> bool" where
  "is_digit c = (c \<in> set ''0123456789'')"

definition digit_val :: "char \<Rightarrow> nat" where
  "digit_val c = (case map_of (zip ''0123456789'' [0, 1, 2, 3, 4, 5, 6, 7, 8, 9]) c of Some d \<Rightarrow> d | None \<Rightarrow> 0)"

fun digitpart :: "string \<Rightarrow> bool" where
  "digitpart [] = False"
| "digitpart [c] = is_digit c"
| "digitpart (c # d # cs) =
     (is_digit c \<and> (if d = CHR ''_'' then digitpart cs else digitpart (d # cs)))"

definition digits_val :: "string \<Rightarrow> nat" where
  "digits_val s = foldl (\<lambda>a c. 10 * a + digit_val c) 0 (filter is_digit s)"

definition parse_exponent :: "string \<Rightarrow> int option" where
  "parse_exponent s =
     (case s of
        [] \<Rightarrow> None
      | c # cs \<Rightarrow>
          if c = CHR ''-'' then (if digitpart cs then Some (- int (digits_val cs)) else None)
          else if c = CHR ''+'' then (if digitpart cs then Some (int (digits_val cs)) else None)
          else if digitpart s then Some (int (digits_val s)) else None)"

definition parse_mantissa :: "string \<Rightarrow> (nat \<times> int) option" where
  "parse_mantissa s =
     (let ip = takeWhile (\<lambda>c. c \<noteq> CHR ''.'') s;
          rest = dropWhile (\<lambda>c. c \<noteq> CHR ''.'') s
      in if rest = [] then (if digitpart ip then Some (digits_val ip, 0) else None)
         else
           let fp = tl rest
           in if fp = [] then (if digitpart ip then Some (digits_val ip, 0) else None)
              else if (ip = [] \<or> digitpart ip) \<and> digitpart fp then
                Some (digits_val (ip @ fp), - int (length (filter is_digit fp)))
              else None)"

definition parse_number :: "string \<Rightarrow> (nat \<times> int) option" where
  "parse_number s =
     (let is_e = (\<lambda>c. c = CHR ''e'' \<or> c = CHR ''E'');
          mant = takeWhile (\<lambda>c. \<not> is_e c) s;
          rest = dropWhile (\<lambda>c. \<not> is_e c) s
      in case parse_mantissa mant of
           None \<Rightarrow> None
         | Some (m, e) \<Rightarrow>
             if rest = [] then Some (m, e)
             else (case parse_exponent (tl rest) of
                     None \<Rightarrow> None
                   | Some x \<Rightarrow> Some (m, e + x)))"

definition parse_unsigned :: "bool \<Rightarrow> string \<Rightarrow> pyfloat option" where
  "parse_unsigned neg s =
     (if ascii_lower s = ''inf'' \<or> ascii_lower s = ''infinity'' then
        Some (if neg then NegInf else PosInf)
      else if ascii_lower s = ''nan'' then Some NaN
      else (case parse_number s of
              None \<Rightarrow> None
            | Some (m, e) \<Rightarrow> Some (Fin neg m e)))"

definition is_c_space :: "char \<Rightarrow> bool" where
  "is_c_space c = (c \<in> set [CHR 0x20, CHR 0x09, CHR 0x0A, CHR 0x0B, CHR 0x0C, CHR 0x0D])"

definition ascii_float :: "string \<Rightarrow> pyfloat option" where
  "ascii_float s =
     (case rev (dropWhile is_c_space (rev (dropWhile is_c_space s))) of
        [] \<Rightarrow> None
      | c # cs \<Rightarrow>
          if c = CHR ''-'' then parse_unsigned True cs
          else if c = CHR ''+'' then parse_unsigned False cs
          else parse_unsigned False (c # cs))"

definition ascii_lib :: pylib where
  "ascii_lib = \<lparr> lib_float = ascii_float, lib_lower = ascii_lower, lib_strip = ascii_strip \<rparr>"

subsection \<open>Dictionary access\<close>

text \<open>
  \<open>d.get(k, default)\<close> on a dict, and the same call on an arbitrary value: only a dict
  has the method, anything else raises \<open>AttributeError\<close>. \<open>s in v\<close> is a substring test
  on a string, an element test on a list, a key test on a dict and a \<open>TypeError\<close> on
  anything else.
\<close>

definition dict_get :: "pydict \<Rightarrow> string \<Rightarrow> pyval \<Rightarrow> pyval" where
  "dict_get d k dflt = (case map_of d k of Some v \<Rightarrow> v | None \<Rightarrow> dflt)"

definition attr_get :: "pyval \<Rightarrow> string \<Rightarrow> pyval \<Rightarrow> error + pyval" where
  "attr_get v k dflt = (case v of PDict d \<Rightarrow> Inr (dict_get d k dflt) | _ \<Rightarrow> Inl AttributeError)"

definition py_in :: "string \<Rightarrow> pyval \<Rightarrow> error + bool" where
  "py_in s v =
     (case v of
        PStr t \<Rightarrow> Inr (py_contains s t)
      | PList xs \<Rightarrow> Inr (PStr s \<in> set xs)
      | PDict d \<Rightarrow> Inr (map_of d s \<noteq> None)
      | _ \<Rightarrow> Inl TypeError)"

definition str_lower :: "pylib \<Rightarrow> pyval \<Rightarrow> error + string" where
  "str_lower L v = (case v of PStr s \<Rightarrow> Inr (lib_lower L s) | _ \<Rightarrow> Inl AttributeError)"

section \<open>The admission filter\<close>

text \<open>
  \<open>filter_jobs(jobs, verified_payment, min_spent, experience_levels, days_back)\<close>.
  The clock is an input: \<open>now\<close> is the proleptic Gregorian ordinal of the current UTC
  date. \<open>timedelta(days=d)\<close> raises \<open>OverflowError\<close> when \<open>d\<close> exceeds 999999999 in
  magnitude, and the subtraction raises it when the date leaves the years 1 to 9999.
  The two \<open>print\<close> calls and the read of the posted date (step 1 of the loop, whose
  result is not used) cannot raise on a list of dicts and are left out. A dict is an
  association list, read by the first binding of a key.
\<close>

definition MAXORDINAL :: int where
  "MAXORDINAL = 3652059"

definition cutoff_time :: "int \<Rightarrow> int \<Rightarrow> error + int" where
  "cutoff_time now days_back =
     (if 999999999 < \<bar>days_back\<bar> then Inl OverflowError
      else if 1 \<le> now - days_back \<and> now - days_back \<le> MAXORDINAL then Inr (now - days_back)
      else Inl OverflowError)"

subsection \<open>Rule 2: verified payment\<close>

definition is_verified :: "pydict \<Rightarrow> error + pyval" where
  "is_verified job =
     (let client = dict_get job ''client'' (PDict []);
          flag = dict_get job ''isPaymentVerified'' PNone
      in if truthy flag then Inr flag
         else ebind (attr_get client ''paymentMethodVerified'' PNone) (\<lambda>pmv.
           if pmv = PBool True then Inr (PBool True)
           else ebind (attr_get client ''paymentVerificationStatus'' PNone) (\<lambda>status.
             Inr (PBool (status = PStr ''VERIFIED'')))))"

definition verified_rule :: "pydict \<Rightarrow> bool \<Rightarrow> error + bool" where
  "verified_rule job verified_payment =
     (if verified_payment then ebind (is_verified job) (\<lambda>v. Inr (truthy v)) else Inr True)"

subsection \<open>Rule 3: minimum spend\<close>

definition resolve_total_spent :: "pydict \<Rightarrow> error + pyval" where
  "resolve_total_spent job =
     (let client = dict_get job ''client'' (PDict [])
      in ebind (attr_get client ''totalSpent'' PNone) (\<lambda>total_spent.
           if total_spent = PNone then
             ebind (py_in ''stats'' client) (\<lambda>has_stats.
               if has_stats then
                 ebind (attr_get client ''stats'' (PDict [])) (\<lambda>stats.
                   attr_get stats ''totalSpent'' PNone)
               else Inr total_spent)
           else Inr total_spent))"

definition coerce_spent :: "pylib \<Rightarrow> pyval \<Rightarrow> pyfloat" where
  "coerce_spent L total_spent =
     (let t = py_or total_spent (PInt 0)
      in case lib_float L (remove_char CHR ''$'' (remove_char CHR '','' (py_str t))) of
           Some f \<Rightarrow> f
         | None \<Rightarrow> fl_zero)"

definition spent_rule :: "pylib \<Rightarrow> pydict \<Rightarrow> pyfloat \<Rightarrow> error + bool" where
  "spent_rule L job min_spent =
     (if fl_lt fl_zero min_spent then
        ebind (resolve_total_spent job) (\<lambda>total_spent.
          Inr (\<not> fl_lt (coerce_spent L total_spent) min_spent))
      else Inr True)"

subsection \<open>Rule 4: experience level\<close>

definition resolve_level :: "pydict \<Rightarrow> error + pyval" where
  "resolve_level job =
     (let level = dict_get job ''experienceLevel'' PNone
      in if truthy level then Inr level
         else attr_get (dict_get job ''vendor'' (PDict [])) ''experienceLevel'' PNone)"

definition level_rule :: "pylib \<Rightarrow> pydict \<Rightarrow> string list \<Rightarrow> error + bool" where
  "level_rule L job experience_levels =
     ebind (resolve_level job) (\<lambda>job_level.
       if experience_levels \<noteq> [] \<and> truthy job_level then
         (let permitted = map (\<lambda>l. lib_lower L (lib_strip L l)) experience_levels
          in ebind (str_lower L job_level) (\<lambda>low. Inr (low \<in> set permitted)))
       else Inr True)"

subsection \<open>Rule 6: proposal count\<close>

definition resolve_proposals :: "pydict \<Rightarrow> pyval" where
  "resolve_proposals job =
     py_or (dict_get job ''proposals'' PNone) (dict_get job ''proposalCount'' PNone)"

definition reject_phrases :: "string list" where
  "reject_phrases = [''15 to 20'', ''20 to 50'', ''50+'']"

fun is_number :: "pyval \<Rightarrow> bool" where
  "is_number (PInt n) = True"
| "is_number (PFloat f) = True"
| "is_number (PBool b) = True"
| "is_number _ = False"

fun ge_15 :: "pyval \<Rightarrow> bool" where
  "ge_15 (PInt n) = (15 \<le> n)"
| "ge_15 (PFloat f) = fl_le (Fin False 15 0) f"
| "ge_15 (PBool b) = ((15::int) \<le> (if b then 1 else 0))"
| "ge_15 _ = False"

definition proposal_rule :: "pydict \<Rightarrow> bool" where
  "proposal_rule job =
     (let proposals = resolve_proposals job
      in if truthy proposals then
           (if list_ex (\<lambda>phrase. py_contains phrase (py_str proposals)) reject_phrases then False
            else if is_number proposals \<and> ge_15 proposals then False
            else True)
         else True)"

subsection \<open>The loop\<close>

text \<open>
  \<open>keep_job\<close> is one pass through the loop body: \<open>Inr False\<close> is a \<open>continue\<close>,
  \<open>Inr True\<close> reaches \<open>filtered.append(job)\<close>, \<open>Inl\<close> is an exception, which leaves
  the loop and the function.
\<close>

definition keep_job ::
  "pylib \<Rightarrow> pydict \<Rightarrow> bool \<Rightarrow> pyfloat \<Rightarrow> string list \<Rightarrow> error + bool" where
  "keep_job L job verified_payment min_spent experience_levels =
     ebind (verified_rule job verified_payment) (\<lambda>ok2.
       if \<not> ok2 then Inr False
       else ebind (spent_rule L job min_spent) (\<lambda>ok3.
         if \<not> ok3 then Inr False
         else ebind (level_rule L job experience_levels) (\<lambda>ok4.
           if \<not> ok4 then Inr False
           else Inr (proposal_rule job))))"

fun filter_loop ::
  "pylib \<Rightarrow> pydict list \<Rightarrow> bool \<Rightarrow> pyfloat \<Rightarrow> string list \<Rightarrow> pydict list \<Rightarrow>
   error + pydict list" where
  "filter_loop L [] vp ms els filtered = Inr filtered"
| "filter_loop L (job # jobs) vp ms els filtered =
     (case keep_job L job vp ms els of
        Inl e \<Rightarrow> Inl e
      | Inr keep \<Rightarrow> filter_loop L jobs vp ms els (if keep then filtered @ [job] else filtered))"

definition filter_jobs ::
  "pylib \<Rightarrow> int \<Rightarrow> pydict list \<Rightarrow> bool \<Rightarrow> pyfloat \<Rightarrow> string list \<Rightarrow> int \<Rightarrow>
   error + pydict list" where
  "filter_jobs L now jobs verified_payment min_spent experience_levels days_back =
     ebind (cutoff_time now days_back) (\<lambda>cutoff.
       filter_loop L jobs verified_payment min_spent experience_levels [])"

section \<open>The transform\<close>

record normalized_job =
  job_id :: pyval
  title :: pyval
  description :: pyval
  skills :: pyval
  budget :: pyval
  hourly_rate :: pyval
  job_type :: pyval
  experience_level :: pyval
  client_country :: pyval
  client_total_spent :: pyval
  client_hires :: pyval
  proposal_count :: pyval
  posted_date :: pyval
  job_url :: pyval
  apply_url :: string

definition resolve_url :: "pydict \<Rightarrow> pyval" where
  "resolve_url job = py_or (dict_get job ''url'' PNone) (dict_get job ''externalLink'' PNone)"

definition direct_id :: "pydict \<Rightarrow> pyval" where
  "direct_id job = py_or (dict_get job ''id'' PNone) (dict_get job ''ciphertext'' PNone)"

text \<open>
  Lines 239 to 247. The membership test \<open>"~" in job_url\<close> is outside the \<open>try\<close>; the
  \<open>split\<close> is inside it, so a list or dict that holds \<open>~\<close> leaves \<open>job_id\<close> as it was.
\<close>

definition derive_job_id :: "pydict \<Rightarrow> error + pyval" where
  "derive_job_id job =
     (let job_id = direct_id job;
          url = resolve_url job
      in if \<not> truthy job_id \<and> truthy url then
           ebind (py_in ''~'' url) (\<lambda>has_tilde.
             if has_tilde then
               (case url of
                  PStr u \<Rightarrow> Inr (PStr (CHR ''~'' # last (py_split CHR ''~'' u)))
                | _ \<Rightarrow> Inr job_id)
             else Inr job_id)
         else Inr job_id)"

definition make_apply_url :: "pyval \<Rightarrow> string" where
  "make_apply_url jid =
     (if truthy jid then ''https://www.upwork.com/nx/proposals/job/'' @ py_str jid @ ''/apply/''
      else [])"

definition client_stat :: "pyval \<Rightarrow> string \<Rightarrow> error + pyval" where
  "client_stat client key =
     ebind (py_in ''stats'' client) (\<lambda>has_stats.
       if has_stats then
         ebind (attr_get client ''stats'' (PDict [])) (\<lambda>stats. attr_get stats key PNone)
       else attr_get client key PNone)"

definition client_country_of :: "pyval \<Rightarrow> error + pyval" where
  "client_country_of client =
     ebind (attr_get client ''location'' (PDict [])) (\<lambda>location.
       ebind (attr_get location ''country'' PNone) (\<lambda>country.
         if truthy country then Inr country else attr_get client ''countryCode'' PNone))"

definition transform_job :: "pydict \<Rightarrow> error + normalized_job" where
  "transform_job job =
     (let client = dict_get job ''client'' (PDict [])
      in ebind (derive_job_id job) (\<lambda>jid.
         ebind (resolve_level job) (\<lambda>level.
         ebind (client_country_of client) (\<lambda>country.
         ebind (client_stat client ''totalSpent'') (\<lambda>spent.
         ebind (client_stat client ''totalHires'') (\<lambda>hires.
           Inr \<lparr> job_id = jid,
                 title = dict_get job ''title'' PNone,
                 description = dict_get job ''description'' PNone,
                 skills = dict_get job ''skills'' (PList []),
                 budget = dict_get job ''budget'' PNone,
                 hourly_rate = dict_get job ''hourlyRate'' PNone,
                 job_type = dict_get job ''jobType'' PNone,
                 experience_level = level,
                 client_country = country,
                 client_total_spent = spent,
                 client_hires = hires,
                 proposal_count = resolve_proposals job,
                 posted_date =
                   py_or (dict_get job ''postedDate'' PNone)
                     (py_or (dict_get job ''date_created'' PNone)
                        (dict_get job ''createdAt'' PNone)),
                 job_url = resolve_url job,
                 apply_url = make_apply_url jid \<rparr>))))))"

section \<open>Notions used to state the properties\<close>

text \<open>
  The definitions of this section are not code of the program. They phrase what the
  specification says, so that the functions above can be compared with it.
\<close>

fun is_dict :: "pyval \<Rightarrow> bool" where
  "is_dict (PDict d) = True"
| "is_dict _ = False"

fun is_str :: "pyval \<Rightarrow> bool" where
  "is_str (PStr s) = True"
| "is_str _ = False"

text \<open>A key is absent from a mapping or bound to a mapping.\<close>

definition absent_or_dict :: "pydict \<Rightarrow> string \<Rightarrow> bool" where
  "absent_or_dict d k = (case map_of d k of None \<Rightarrow> True | Some v \<Rightarrow> is_dict v)"

text \<open>A value is a string, or tests false (null, zero, empty).\<close>

definition str_or_falsy :: "pyval \<Rightarrow> bool" where
  "str_or_falsy v = (is_str v \<or> \<not> truthy v)"

text \<open>The field \<open>k\<close> of a value that is a mapping; null when it is not one or lacks \<open>k\<close>.\<close>

definition field :: "pyval \<Rightarrow> string \<Rightarrow> pyval" where
  "field v k = (case v of PDict d \<Rightarrow> dict_get d k PNone | _ \<Rightarrow> PNone)"

text \<open>
  A well-typed record: \<open>client\<close> and \<open>vendor\<close> are absent or mappings, so are the
  client's \<open>location\<close> and \<open>stats\<close>, both experience levels and the public URL are
  strings or test false.
\<close>

definition record_ok :: "pydict \<Rightarrow> bool" where
  "record_ok job =
     (absent_or_dict job ''client'' \<and> absent_or_dict job ''vendor'' \<and>
      (case map_of job ''client'' of
         Some (PDict c) \<Rightarrow> absent_or_dict c ''location'' \<and> absent_or_dict c ''stats''
       | _ \<Rightarrow> True) \<and>
      str_or_falsy (dict_get job ''experienceLevel'' PNone) \<and>
      str_or_falsy (field (dict_get job ''vendor'' PNone) ''experienceLevel'') \<and>
      str_or_falsy (resolve_url job))"

text \<open>The field resolver of the specification: the first candidate that is not null.\<close>

fun first_present :: "pyval list \<Rightarrow> pyval" where
  "first_present [] = PNone"
| "first_present (v # vs) = (if v \<noteq> PNone then v else first_present vs)"

text \<open>The text after the last occurrence of a character.\<close>

definition after_last :: "char \<Rightarrow> string \<Rightarrow> string" where
  "after_last c s = rev (takeWhile (\<lambda>x. x \<noteq> c) (rev s))"

text \<open>
  A level matches an allow-set entry when \<open>lower\<close> takes the level and the trimmed entry
  to the same text.
\<close>

definition ci_match :: "pylib \<Rightarrow> string \<Rightarrow> string list \<Rightarrow> bool" where
  "ci_match L s allow = (\<exists>l \<in> set allow. lib_lower L s = lib_lower L (lib_strip L l))"

text \<open>A text contains one of the high-competition phrases as a contiguous part.\<close>

definition has_phrase :: "string \<Rightarrow> bool" where
  "has_phrase s = (\<exists>p \<in> set reject_phrases. sublist p s)"

text \<open>A text without a blank and without a plus sign.\<close>

definition plain_text :: "string \<Rightarrow> bool" where
  "plain_text s = (CHR '' '' \<notin> set s \<and> CHR ''+'' \<notin> set s)"

text \<open>
  One threshold is tightened and the other two are kept: the minimum spend is raised,
  or the allow-set is narrowed (a non-empty subset, or a non-empty set in place of the
  empty one), or the verified-payment requirement is switched on. The first triple is the
  looser configuration.
\<close>

definition tightens ::
  "bool \<Rightarrow> pyfloat \<Rightarrow> string list \<Rightarrow> bool \<Rightarrow> pyfloat \<Rightarrow> string list \<Rightarrow> bool" where
  "tightens vp ms els vp' ms' els' =
     ((vp' = vp \<and> els' = els \<and> fl_le ms ms') \<or>
      (vp' = vp \<and> ms' = ms \<and> els' \<noteq> [] \<and> (els = [] \<or> set els' \<subseteq> set els)) \<or>
      (ms' = ms \<and> els' = els \<and> \<not> vp \<and> vp'))"

text \<open>The cutoff date of a recency window is a date of the calendar.\<close>

definition window_ok :: "int \<Rightarrow> int \<Rightarrow> bool" where
  "window_ok now days_back =
     (\<bar>days_back\<bar> \<le> 999999999 \<and> 1 \<le> now - days_back \<and> now - days_back \<le> MAXORDINAL)"

section \<open>Auxiliary facts\<close>

lemma ebind_Inr [simp]: "ebind (Inr x) f = f x"
  by (simp add: ebind_def)

lemma ebind_Inl [simp]: "ebind (Inl e) f = Inl e"
  by (simp add: ebind_def)

lemma ebind_eq_Inr: "ebind m f = Inr y \<longleftrightarrow> (\<exists>x. m = Inr x \<and> f x = Inr y)"
  by (cases m) simp_all

lemma attr_get_Inr: "attr_get v k d = Inr x \<longleftrightarrow> (\<exists>c. v = PDict c \<and> x = dict_get c k d)"
  by (cases v) (auto simp: attr_get_def)

lemma attr_get_dict [simp]: "attr_get (PDict c) k d = Inr (dict_get c k d)"
  by (simp add: attr_get_def)

lemma transform_job_fields:
  assumes "transform_job job = Inr nj"
  shows "derive_job_id job = Inr (job_id nj)"
    and "apply_url nj = make_apply_url (job_id nj)"
    and "client_stat (dict_get job ''client'' (PDict [])) ''totalSpent'' = Inr (client_total_spent nj)"
    and "resolve_level job = Inr (experience_level nj)"
  using assms by (auto simp: transform_job_def ebind_eq_Inr Let_def)

lemma py_contains_sublist: "py_contains p s \<longleftrightarrow> sublist p s"
  by (induction s) (simp_all add: sublist_Cons_right)

lemma py_contains_single: "py_contains [c] s \<longleftrightarrow> c \<in> set s"
  by (induction s) auto

lemma py_split_notin: "c \<notin> set s \<Longrightarrow> py_split c s = [s]"
  by (induction s) auto

lemma py_split_ne: "py_split c s \<noteq> []"
  by (induction s) (auto split: list.splits)

lemma py_split_in: "c \<in> set s \<Longrightarrow> \<exists>w v ws. py_split c s = w # v # ws"
proof (induction s)
  case Nil
  then show ?case by simp
next
  case (Cons x xs)
  show ?case
  proof (cases "x = c")
    case True
    then show ?thesis using py_split_ne [of c xs] by (cases "py_split c xs") auto
  next
    case False
    with Cons show ?thesis by auto
  qed
qed

lemma after_last_Cons:
  "after_last c (x # xs) = (if c \<in> set xs then after_last c xs else if x = c then xs else x # xs)"
  by (auto simp: after_last_def takeWhile_append takeWhile_eq_all_conv)

lemma last_py_split: "last (py_split c s) = after_last c s"
proof (induction s)
  case Nil
  show ?case by (simp add: after_last_def)
next
  case (Cons x xs)
  show ?case
  proof (cases "c \<in> set xs")
    case True
    then obtain w v ws where "py_split c xs = w # v # ws"
      using py_split_in by blast
    with Cons True show ?thesis by (simp add: after_last_Cons)
  next
    case False
    then show ?thesis by (simp add: after_last_Cons py_split_notin)
  qed
qed


lemma absent_or_dict_get:
  assumes "absent_or_dict d k"
  shows "\<exists>c. dict_get d k (PDict []) = PDict c"
proof (cases "map_of d k")
  case None
  then show ?thesis by (simp add: dict_get_def)
next
  case (Some v)
  with assms show ?thesis by (cases v) (auto simp: absent_or_dict_def dict_get_def)
qed

lemma str_or_falsy_cases: "str_or_falsy v \<Longrightarrow> truthy v \<Longrightarrow> \<exists>s. v = PStr s"
  by (cases v) (auto simp: str_or_falsy_def)

lemmas access_defs = dict_get_def attr_get_def py_in_def py_or_def py_str_def str_lower_def
  resolve_url_def direct_id_def resolve_level_def resolve_proposals_def

lemmas transform_defs = transform_job_def derive_job_id_def make_apply_url_def client_stat_def
  client_country_of_def

lemma derive_job_id_url:
  assumes "\<not> truthy (direct_id job)" "resolve_url job = PStr u" "CHR ''~'' \<in> set u"
  shows "derive_job_id job = Inr (PStr (CHR ''~'' # after_last CHR ''~'' u))"
proof -
  from assms(3) have "u \<noteq> []" by auto
  with assms show ?thesis
    by (simp add: derive_job_id_def py_in_def py_contains_single last_py_split)
qed

lemma derive_job_id_none:
  assumes "\<not> truthy (direct_id job)" "\<forall>u. resolve_url job = PStr u \<longrightarrow> CHR ''~'' \<notin> set u"
    "derive_job_id job = Inr jid"
  shows "\<not> truthy jid"
  using assms
  by (cases "resolve_url job")
     (auto simp: derive_job_id_def Let_def py_in_def py_contains_single ebind_eq_Inr split: if_splits)

section \<open>The derived identifier and the apply URL\<close>

text \<open>
  C8. A record has no direct identifier (\<open>id\<close> and \<open>ciphertext\<close> are absent, null or
  otherwise false) and its public URL is a text that contains \<open>~\<close>. Then the identifier
  derived by \<open>transform_job\<close> is \<open>~\<close> followed by the part of the URL after its last
  \<open>~\<close>, the apply URL is the template filled with that identifier, and every job that
  \<open>transform_job\<close> returns for the record carries both. The witness is the scenario of
  the specification, the URL \<open>https://x/jobs/~0198abc\<close>.
\<close>

theorem job_id_from_url:
  assumes "\<not> truthy (direct_id job)"
    and "resolve_url job = PStr u"
    and "CHR ''~'' \<in> set u"
  shows "derive_job_id job = Inr (PStr (CHR ''~'' # after_last CHR ''~'' u)) \<and>
         make_apply_url (PStr (CHR ''~'' # after_last CHR ''~'' u)) =
           ''https://www.upwork.com/nx/proposals/job/~'' @ after_last CHR ''~'' u @ ''/apply/'' \<and>
         (\<forall>nj. transform_job job = Inr nj \<longrightarrow>
            job_id nj = PStr (CHR ''~'' # after_last CHR ''~'' u) \<and>
            apply_url nj =
              ''https://www.upwork.com/nx/proposals/job/~'' @ after_last CHR ''~'' u @ ''/apply/'')"
proof -
  have d: "derive_job_id job = Inr (PStr (CHR ''~'' # after_last CHR ''~'' u))"
    using assms by (rule derive_job_id_url)
  have a: "make_apply_url (PStr (CHR ''~'' # after_last CHR ''~'' u)) =
           ''https://www.upwork.com/nx/proposals/job/~'' @ after_last CHR ''~'' u @ ''/apply/''"
    by (simp add: make_apply_url_def py_str_def)
  have "job_id nj = PStr (CHR ''~'' # after_last CHR ''~'' u) \<and>
        apply_url nj =
          ''https://www.upwork.com/nx/proposals/job/~'' @ after_last CHR ''~'' u @ ''/apply/''"
    if nj: "transform_job job = Inr nj" for nj
  proof -
    have "derive_job_id job = Inr (job_id nj)"
      using nj by (rule transform_job_fields)
    with d have id: "job_id nj = PStr (CHR ''~'' # after_last CHR ''~'' u)" by simp
    have "apply_url nj = make_apply_url (job_id nj)"
      using nj by (rule transform_job_fields)
    with id a show ?thesis by simp
  qed
  with d a show ?thesis by blast
qed

theorem job_id_from_url_witness:
  "derive_job_id [(''url'', PStr ''https://x/jobs/~0198abc'')] = Inr (PStr ''~0198abc'') \<and>
   (\<exists>nj. transform_job [(''url'', PStr ''https://x/jobs/~0198abc'')] = Inr nj \<and>
         job_id nj = PStr ''~0198abc'' \<and>
         apply_url nj = ''https://www.upwork.com/nx/proposals/job/~0198abc/apply/'')"
proof -
  let ?job = "[(''url'', PStr ''https://x/jobs/~0198abc'')]"
  have h1: "\<not> truthy (direct_id ?job)" by (simp add: access_defs)
  have h2: "resolve_url ?job = PStr ''https://x/jobs/~0198abc''" by (simp add: access_defs)
  have h3: "CHR ''~'' \<in> set ''https://x/jobs/~0198abc''" by simp
  obtain nj where h4: "transform_job ?job = Inr nj"
    by (simp add: transform_defs access_defs)
  from job_id_from_url [OF h1 h2 h3] h4 show ?thesis
    by (simp add: after_last_def)
qed

text \<open>
  C3. In every job that \<open>transform_job\<close> returns, \<open>apply_url\<close> is non-empty exactly
  when \<open>job_id\<close> is non-empty, where an identifier is empty when it tests false, as the
  code tests it (null or the empty text); a non-empty \<open>apply_url\<close> is the fixed
  template around the text of \<open>job_id\<close>; and when there is no direct identifier and the
  public URL is not a text with a \<open>~\<close>, \<open>job_id\<close> is empty.
\<close>

theorem apply_url_iff_job_id:
  assumes "transform_job job = Inr nj"
  shows "(apply_url nj \<noteq> [] \<longleftrightarrow> truthy (job_id nj)) \<and>
         (truthy (job_id nj) \<longrightarrow>
            apply_url nj =
              ''https://www.upwork.com/nx/proposals/job/'' @ py_str (job_id nj) @ ''/apply/'') \<and>
         (\<not> truthy (direct_id job) \<and>
          (\<forall>u. resolve_url job = PStr u \<longrightarrow> CHR ''~'' \<notin> set u) \<longrightarrow>
            \<not> truthy (job_id nj))"
proof -
  have url: "apply_url nj = make_apply_url (job_id nj)"
    using assms by (rule transform_job_fields)
  have jid: "derive_job_id job = Inr (job_id nj)"
    using assms by (rule transform_job_fields)
  show ?thesis
    using derive_job_id_none [OF _ _ jid] by (auto simp: url make_apply_url_def)
qed

theorem apply_url_iff_job_id_witness:
  "\<exists>nj. transform_job [(''id'', PStr ''~01abc'')] = Inr nj \<and>
        truthy (job_id nj) \<and>
        apply_url nj = ''https://www.upwork.com/nx/proposals/job/~01abc/apply/''"
proof -
  let ?job = "[(''id'', PStr ''~01abc'')]"
  obtain nj where h: "transform_job ?job = Inr nj"
    by (simp add: transform_defs access_defs)
  then have j: "job_id nj = PStr ''~01abc''"
    by (auto simp: transform_defs access_defs)
  from apply_url_iff_job_id [OF h] h j show ?thesis
    by (simp add: py_str_def)
qed

section \<open>The rules of the filter\<close>

lemmas filter_defs = is_verified_def verified_rule_def resolve_total_spent_def spent_rule_def
  level_rule_def proposal_rule_def keep_job_def coerce_spent_def reject_phrases_def fl_zero_def
  ascii_lib_def

lemmas float_defs = ascii_float_def is_c_space_def parse_unsigned_def ascii_lower_def lower_char_def
  parse_number_def parse_mantissa_def parse_exponent_def is_digit_def digits_val_def
  digit_val_def remove_char_def

lemmas str_defs = str_int_def str_nat.simps digit_char_def ascii_strip_def is_space_def

lemma keep_job_True:
  "keep_job L job vp ms els = Inr True \<longleftrightarrow>
     verified_rule job vp = Inr True \<and> spent_rule L job ms = Inr True \<and>
     level_rule L job els = Inr True \<and> proposal_rule job"
  by (auto simp: keep_job_def ebind_eq_Inr split: if_splits)

text \<open>
  C5, as amended. With verified payment required, the rule returns when the top-level
  flag \<open>isPaymentVerified\<close> tests true or the client is absent or a mapping. It then lets
  the record pass exactly when the flag tests true, or the client's
  \<open>paymentMethodVerified\<close> is the boolean true, or the client's
  \<open>paymentVerificationStatus\<close> is the text \<open>VERIFIED\<close>; the alternatives are tried in
  this order and the first that holds decides. With a false flag and a client that is not
  a mapping the rule raises \<open>AttributeError\<close>. A record that does not pass is rejected by
  the loop body, and without the requirement the rule lets every record pass.
\<close>

theorem verified_rule_spec:
  "verified_rule job True =
     (if truthy (dict_get job ''isPaymentVerified'' PNone) \<or>
         is_dict (dict_get job ''client'' (PDict []))
      then Inr (truthy (dict_get job ''isPaymentVerified'' PNone) \<or>
                field (dict_get job ''client'' (PDict [])) ''paymentMethodVerified'' = PBool True \<or>
                field (dict_get job ''client'' (PDict [])) ''paymentVerificationStatus'' =
                  PStr ''VERIFIED'')
      else Inl AttributeError) \<and>
   (verified_rule job True = Inr False \<longrightarrow> keep_job L job True ms els = Inr False) \<and>
   verified_rule job False = Inr True"
proof -
  have rule: "verified_rule job True =
     (if truthy (dict_get job ''isPaymentVerified'' PNone) \<or>
         is_dict (dict_get job ''client'' (PDict []))
      then Inr (truthy (dict_get job ''isPaymentVerified'' PNone) \<or>
                field (dict_get job ''client'' (PDict [])) ''paymentMethodVerified'' = PBool True \<or>
                field (dict_get job ''client'' (PDict [])) ''paymentVerificationStatus'' =
                  PStr ''VERIFIED'')
      else Inl AttributeError)"
  proof (cases "truthy (dict_get job ''isPaymentVerified'' PNone)")
    case True
    then show ?thesis by (simp add: verified_rule_def is_verified_def Let_def)
  next
    case False
    then show ?thesis
      by (cases "dict_get job ''client'' (PDict [])")
         (simp_all add: verified_rule_def is_verified_def Let_def attr_get_def field_def)
  qed
  have "verified_rule job True = Inr False \<longrightarrow> keep_job L job True ms els = Inr False"
    by (simp add: keep_job_def)
  moreover have "verified_rule job False = Inr True"
    by (simp add: verified_rule_def)
  ultimately show ?thesis using rule by blast
qed

theorem verified_rule_spec_witness:
  "verified_rule [(''client'', PDict [(''paymentMethodVerified'', PBool True)])] True = Inr True \<and>
   verified_rule [(''client'', PDict [(''paymentMethodVerified'', PInt 1)])] True = Inr False"
proof -
  let ?yes = "[(''client'', PDict [(''paymentMethodVerified'', PBool True)])]"
  let ?no = "[(''client'', PDict [(''paymentMethodVerified'', PInt 1)])]"
  from verified_rule_spec [of ?yes ascii_lib fl_zero "[]"]
    verified_rule_spec [of ?no ascii_lib fl_zero "[]"]
  show ?thesis by (simp add: dict_get_def field_def)
qed

text \<open>
  C5 as stated has every unverified record rejected. A record whose \<open>client\<close> is null
  is not verified, and it is not rejected either: the read of the client raises.
\<close>

theorem verified_rule_null_client:
  "verified_rule [(''client'', PNone)] True = Inl AttributeError \<and>
   keep_job ascii_lib [(''client'', PNone)] True fl_zero [] = Inl AttributeError"
  by (simp add: filter_defs access_defs)

text \<open>
  C7, as amended. The resolved level is the top-level \<open>experienceLevel\<close> when that tests
  true and the vendor's \<open>experienceLevel\<close> otherwise; it resolves when the top-level one
  tests true or the vendor is absent or a mapping. When the level is a text or tests
  false, the rule rejects exactly when the allow-set is non-empty and the level is a
  non-empty text without a match in the allow-set, where a level matches an entry when
  \<open>lower\<close> takes the level and the trimmed entry to the same text; so an absent level
  or an empty allow-set never rejects. When the level tests true and is not a text, a
  non-empty allow-set makes the rule raise \<open>AttributeError\<close>. A rejected record is not
  admitted. This holds for every \<open>lower\<close> and \<open>strip\<close>, those of the Python runtime
  among them.
\<close>

theorem level_rule_spec:
  assumes lvl: "lvl = py_or (dict_get job ''experienceLevel'' PNone)
                       (field (dict_get job ''vendor'' (PDict [])) ''experienceLevel'')"
    and vendor: "truthy (dict_get job ''experienceLevel'' PNone) \<or> absent_or_dict job ''vendor''"
  shows "resolve_level job = Inr lvl \<and>
         (str_or_falsy lvl \<longrightarrow>
            level_rule L job els =
              Inr (\<not> (els \<noteq> [] \<and> (\<exists>s. lvl = PStr s \<and> s \<noteq> [] \<and> \<not> ci_match L s els)))) \<and>
         (\<not> str_or_falsy lvl \<and> els \<noteq> [] \<longrightarrow> level_rule L job els = Inl AttributeError) \<and>
         (level_rule L job els = Inr False \<longrightarrow> keep_job L job vp ms els \<noteq> Inr True)"
proof -
  have res: "resolve_level job = Inr lvl"
  proof (cases "truthy (dict_get job ''experienceLevel'' PNone)")
    case True
    then show ?thesis by (simp add: resolve_level_def lvl py_or_def)
  next
    case False
    with vendor obtain v where "dict_get job ''vendor'' (PDict []) = PDict v"
      using absent_or_dict_get by blast
    with False show ?thesis by (simp add: resolve_level_def lvl py_or_def field_def)
  qed
  have ok: "level_rule L job els =
      Inr (\<not> (els \<noteq> [] \<and> (\<exists>s. lvl = PStr s \<and> s \<noteq> [] \<and> \<not> ci_match L s els)))"
    if "str_or_falsy lvl"
  proof (cases "truthy lvl")
    case True
    with that obtain s where "lvl = PStr s" using str_or_falsy_cases by blast
    with True res show ?thesis
      by (auto simp: level_rule_def Let_def str_lower_def ci_match_def)
  next
    case False
    with res show ?thesis by (cases lvl) (auto simp: level_rule_def)
  qed
  have bad: "level_rule L job els = Inl AttributeError" if "\<not> str_or_falsy lvl" "els \<noteq> []"
    using that res by (cases lvl) (auto simp: level_rule_def Let_def str_lower_def str_or_falsy_def)
  have "level_rule L job els = Inr False \<longrightarrow> keep_job L job vp ms els \<noteq> Inr True"
    by (auto simp: keep_job_True)
  with res ok bad show ?thesis by blast
qed

theorem level_rule_spec_witness:
  "level_rule ascii_lib [(''vendor'', PDict [(''experienceLevel'', PStr ''Entry'')])]
     ['' Expert'', ''intermediate''] = Inr False \<and>
   level_rule ascii_lib [(''vendor'', PDict [(''experienceLevel'', PStr ''EXPERT'')])]
     ['' Expert'', ''intermediate''] = Inr True"
proof -
  let ?entry = "[(''vendor'', PDict [(''experienceLevel'', PStr ''Entry'')])]"
  let ?expert = "[(''vendor'', PDict [(''experienceLevel'', PStr ''EXPERT'')])]"
  let ?els = "['' Expert'', ''intermediate'']"
  have l1: "PStr ''Entry'' = py_or (dict_get ?entry ''experienceLevel'' PNone)
                       (field (dict_get ?entry ''vendor'' (PDict [])) ''experienceLevel'')"
    by (simp add: py_or_def dict_get_def field_def)
  have l2: "PStr ''EXPERT'' = py_or (dict_get ?expert ''experienceLevel'' PNone)
                       (field (dict_get ?expert ''vendor'' (PDict [])) ''experienceLevel'')"
    by (simp add: py_or_def dict_get_def field_def)
  have v1: "truthy (dict_get ?entry ''experienceLevel'' PNone) \<or> absent_or_dict ?entry ''vendor''"
    by (simp add: absent_or_dict_def)
  have v2: "truthy (dict_get ?expert ''experienceLevel'' PNone) \<or> absent_or_dict ?expert ''vendor''"
    by (simp add: absent_or_dict_def)
  have m1: "\<not> ci_match ascii_lib ''Entry'' ?els"
    by (simp add: ci_match_def ascii_lib_def ascii_lower_def lower_char_def ascii_strip_def is_space_def)
  have m2: "ci_match ascii_lib ''EXPERT'' ?els"
    by (simp add: ci_match_def ascii_lib_def ascii_lower_def lower_char_def ascii_strip_def is_space_def)
  from level_rule_spec [OF l1 v1, of ascii_lib ?els True fl_zero]
       level_rule_spec [OF l2 v2, of ascii_lib ?els True fl_zero] m1 m2
  show ?thesis by (simp add: str_or_falsy_def)
qed

text \<open>
  C7 as stated has every present level without a match rejected. The level 5 is present
  and matches nothing in the allow-set \<open>expert\<close>, and the record is not rejected:
  \<open>job_level.lower()\<close> raises.
\<close>

theorem level_rule_number_raises:
  "level_rule ascii_lib [(''experienceLevel'', PInt 5)] [''expert''] = Inl AttributeError \<and>
   keep_job ascii_lib [(''experienceLevel'', PInt 5)] False fl_zero [''expert''] = Inl AttributeError"
  by (simp add: filter_defs access_defs fin_val_def)







subsection \<open>Texts that cannot hold a phrase\<close>

lemma plain_text_Nil [simp]: "plain_text []"
  by (simp add: plain_text_def)

lemma plain_text_Cons:
  "plain_text (c # s) \<longleftrightarrow> c \<noteq> CHR '' '' \<and> c \<noteq> CHR ''+'' \<and> plain_text s"
  by (auto simp: plain_text_def)

lemma plain_text_append [simp]: "plain_text (a @ b) \<longleftrightarrow> plain_text a \<and> plain_text b"
  by (auto simp: plain_text_def)

lemma plain_text_subset: "set a \<subseteq> set b \<Longrightarrow> plain_text b \<Longrightarrow> plain_text a"
  by (auto simp: plain_text_def)

lemma plain_text_zeros [simp]: "plain_text (replicate k CHR ''0'')"
  by (simp add: plain_text_def)

lemma plain_text_take: "plain_text s \<Longrightarrow> plain_text (take k s)"
  by (rule plain_text_subset [OF set_take_subset])

lemma plain_text_drop: "plain_text s \<Longrightarrow> plain_text (drop k s)"
  by (rule plain_text_subset [OF set_drop_subset])

lemma digit_char_digit: "d < 10 \<Longrightarrow> is_digit (digit_char d)"
  unfolding digit_char_def is_digit_def by (rule nth_mem) simp

lemma is_digit_plain: "is_digit c \<Longrightarrow> c \<noteq> CHR '' '' \<and> c \<noteq> CHR ''+''"
  by (auto simp: is_digit_def)

lemma str_nat_plain: "plain_text (str_nat n)"
proof (induction n rule: str_nat.induct)
  case (1 n)
  show ?case
  proof (cases "n < 10")
    case True
    have "str_nat n = [digit_char n]"
      using True by (subst str_nat.simps) simp
    with True show ?thesis
      using is_digit_plain [OF digit_char_digit [of n]] by (simp add: plain_text_Cons)
  next
    case False
    have eq: "str_nat n = str_nat (n div 10) @ [digit_char (n mod 10)]"
      using False by (subst str_nat.simps) simp
    have "is_digit (digit_char (n mod 10))"
      by (rule digit_char_digit) simp
    then have "plain_text [digit_char (n mod 10)]"
      using is_digit_plain by (simp add: plain_text_Cons)
    with False 1 show ?thesis
      unfolding eq by simp
  qed
qed

lemma strip_zeros_plain: "plain_text (strip_zeros (str_nat n))"
proof (rule plain_text_subset [OF _ str_nat_plain])
  show "set (strip_zeros (str_nat n)) \<subseteq> set (str_nat n)"
    by (auto simp: strip_zeros_def dest: set_dropWhileD)
qed

lemma str_int_plain: "plain_text (str_int i)"
  using str_nat_plain by (simp add: str_int_def plain_text_Cons)

lemma sci_mantissa_plain:
  assumes "plain_text ds"
  shows "plain_text (case ds of [] \<Rightarrow> []
           | d # rest \<Rightarrow> d # (if rest \<noteq> [] then CHR ''.'' # rest else []))"
  using assms by (cases ds) (simp_all add: plain_text_Cons)

lemma exp_str_shape:
  "\<exists>s D. exp_str x = s # D \<and> (s = CHR ''-'' \<or> s = CHR ''+'') \<and> plain_text D"
  using str_nat_plain by (simp add: exp_str_def Let_def plain_text_Cons)

lemma fin_repr_fixed_plain:
  assumes "m \<noteq> 0"
    and "\<not> (int (length (str_nat m)) + e \<le> - 4 \<or> 16 < int (length (str_nat m)) + e)"
  shows "plain_text (fin_repr m e)"
proof -
  have "fin_repr m e =
      (if int (length (str_nat m)) + e \<le> 0 then
         ''0.'' @ replicate (nat (- (int (length (str_nat m)) + e))) CHR ''0'' @
         strip_zeros (str_nat m)
       else if int (length (strip_zeros (str_nat m))) \<le> int (length (str_nat m)) + e then
         strip_zeros (str_nat m) @
         replicate (nat (int (length (str_nat m)) + e - int (length (strip_zeros (str_nat m)))))
           CHR ''0'' @ ''.0''
       else take (nat (int (length (str_nat m)) + e)) (strip_zeros (str_nat m)) @
            CHR ''.'' # drop (nat (int (length (str_nat m)) + e)) (strip_zeros (str_nat m)))"
    using assms by (simp only: fin_repr_def Let_def if_False)
  then show ?thesis
    by (simp add: plain_text_Cons strip_zeros_plain plain_text_take plain_text_drop)
qed

lemma fin_repr_zero_plain: "plain_text (fin_repr 0 e)"
  by (simp add: fin_repr_def plain_text_Cons)

lemma fin_repr_sci:
  assumes "m \<noteq> 0"
    and "int (length (str_nat m)) + e \<le> - 4 \<or> 16 < int (length (str_nat m)) + e"
  shows "fin_repr m e =
           (case strip_zeros (str_nat m) of [] \<Rightarrow> []
            | d # rest \<Rightarrow> d # (if rest \<noteq> [] then CHR ''.'' # rest else [])) @
           CHR ''e'' # exp_str (int (length (str_nat m)) + e - 1)"
  using assms by (simp only: fin_repr_def Let_def if_False if_True)

lemma fin_repr_shape:
  "plain_text (fin_repr m e) \<or>
   (\<exists>M s D. fin_repr m e = M @ CHR ''e'' # s # D \<and> plain_text M \<and>
            (s = CHR ''-'' \<or> s = CHR ''+'') \<and> plain_text D)"
proof (cases "m = 0")
  case True
  then show ?thesis using fin_repr_zero_plain by simp
next
  case False
  show ?thesis
  proof (cases "int (length (str_nat m)) + e \<le> - 4 \<or> 16 < int (length (str_nat m)) + e")
    case True
    obtain s D where sD: "exp_str (int (length (str_nat m)) + e - 1) = s # D"
      "s = CHR ''-'' \<or> s = CHR ''+''" "plain_text D"
      using exp_str_shape by blast
    define M where "M = (case strip_zeros (str_nat m) of [] \<Rightarrow> []
            | d # rest \<Rightarrow> d # (if rest \<noteq> [] then CHR ''.'' # rest else []))"
    have M: "plain_text M"
      unfolding M_def by (rule sci_mantissa_plain) (rule strip_zeros_plain)
    have "fin_repr m e = M @ CHR ''e'' # exp_str (int (length (str_nat m)) + e - 1)"
      unfolding M_def by (rule fin_repr_sci [OF False True])
    then have "fin_repr m e = M @ CHR ''e'' # s # D"
      by (simp only: sD(1))
    with M sD(2,3)
    have "fin_repr m e = M @ CHR ''e'' # s # D \<and> plain_text M \<and>
            (s = CHR ''-'' \<or> s = CHR ''+'') \<and> plain_text D"
      by simp
    then have "\<exists>M s D. fin_repr m e = M @ CHR ''e'' # s # D \<and> plain_text M \<and>
            (s = CHR ''-'' \<or> s = CHR ''+'') \<and> plain_text D"
      by (intro exI)
    then show ?thesis ..
  next
    case no_exp: False
    from fin_repr_fixed_plain [OF False no_exp] show ?thesis ..
  qed
qed


lemma no_plus_sublist: "plain_text s \<Longrightarrow> \<not> sublist ''0+'' s"
  using set_mono_sublist [of "''0+''" s] by (auto simp: plain_text_def)

lemma no_zero_plus_exp:
  assumes M: "plain_text M" and D: "plain_text D" and s: "s = CHR ''-'' \<or> s = CHR ''+''"
  shows "\<not> sublist ''0+'' (M @ CHR ''e'' # s # D)"
proof
  assume "sublist ''0+'' (M @ CHR ''e'' # s # D)"
  then consider "sublist ''0+'' M" | "sublist ''0+'' (CHR ''e'' # s # D)"
    | xs1 xs2 where "''0+'' = xs1 @ xs2" "suffix xs1 M" "prefix xs2 (CHR ''e'' # s # D)"
      "xs1 \<noteq> []" "xs2 \<noteq> []"
    unfolding sublist_append
    by (metis append_Nil append_Nil2 prefix_imp_sublist suffix_imp_sublist)
  then show False
  proof cases
    case 1
    with M show False by (simp add: no_plus_sublist)
  next
    case 2
    then have "sublist ''0+'' D" using s by (auto simp: sublist_Cons_right)
    with D show False by (simp add: no_plus_sublist)
  next
    case 3
    from 3(1,4,5) have "xs2 = ''+''"
      by (cases xs1; cases xs2) (auto simp: Cons_eq_append_conv)
    with 3(3) show False by simp
  qed
qed

lemma has_phrase_chars:
  assumes "has_phrase s"
  shows "CHR '' '' \<in> set s \<or> sublist ''0+'' s"
proof -
  from assms obtain p where p: "p \<in> set reject_phrases" "sublist p s"
    by (auto simp: has_phrase_def)
  from p(2) have sub: "set p \<subseteq> set s" by (rule set_mono_sublist)
  have "sublist ''0+'' ''50+''" by (simp add: sublist_Cons_right)
  then have "p = ''50+'' \<Longrightarrow> sublist ''0+'' s"
    using p(2) sublist_order.order_trans by blast
  with p(1) sub show ?thesis by (auto simp: reject_phrases_def)
qed

lemma no_phrase_plain: "plain_text s \<Longrightarrow> \<not> has_phrase s"
  using has_phrase_chars [of s] no_plus_sublist [of s] by (auto simp: plain_text_def)

lemma no_phrase_signed:
  assumes P: "plain_text P"
  shows "\<not> has_phrase (P @ fin_repr m e)"
proof -
  consider "plain_text (fin_repr m e)"
    | M s D where "fin_repr m e = M @ CHR ''e'' # s # D" "plain_text M"
        "s = CHR ''-'' \<or> s = CHR ''+''" "plain_text D"
    using fin_repr_shape by blast
  then show ?thesis
  proof cases
    case 1
    with P show ?thesis by (intro no_phrase_plain) simp
  next
    case 2
    have "\<not> sublist ''0+'' ((P @ M) @ CHR ''e'' # s # D)"
      using P 2(2,3,4) by (intro no_zero_plus_exp) simp_all
    moreover have "CHR '' '' \<notin> set (P @ fin_repr m e)"
      using P 2 by (auto simp: plain_text_def)
    ultimately show ?thesis
      using has_phrase_chars [of "P @ fin_repr m e"] by (auto simp: 2(1))
  qed
qed

lemma no_phrase_float: "\<not> has_phrase (float_repr f)"
proof (cases f)
  case (Fin neg m e)
  have "\<not> has_phrase ((if neg then ''-'' else []) @ fin_repr m e)"
    by (rule no_phrase_signed) (simp add: plain_text_Cons)
  with Fin show ?thesis by simp
next
  case PosInf
  then show ?thesis by (simp add: no_phrase_plain plain_text_Cons)
next
  case NegInf
  then show ?thesis by (simp add: no_phrase_plain plain_text_Cons)
next
  case NaN
  then show ?thesis by (simp add: no_phrase_plain plain_text_Cons)
qed

lemma no_phrase_int: "\<not> has_phrase (str_int n)"
  by (rule no_phrase_plain) (rule str_int_plain)

lemma list_ex_phrase: "list_ex (\<lambda>phrase. py_contains phrase t) reject_phrases \<longleftrightarrow> has_phrase t"
  by (simp add: has_phrase_def list_ex_iff py_contains_sublist)

lemma proposal_rule_iff:
  "\<not> proposal_rule job \<longleftrightarrow>
     truthy (resolve_proposals job) \<and>
     (has_phrase (py_str (resolve_proposals job)) \<or>
      (is_number (resolve_proposals job) \<and> ge_15 (resolve_proposals job)))"
  by (simp add: proposal_rule_def Let_def list_ex_phrase)


text \<open>
  C6, as amended. The proposal count is \<open>proposals\<close> when that tests true and
  \<open>proposalCount\<close> otherwise. The rule rejects exactly when the count tests true and
  either its text, as \<open>str\<close> renders it, contains one of the phrases \<open>15 to 20\<close>,
  \<open>20 to 50\<close>, \<open>50+\<close>, or it is a number of at least 15. For an integer and for a
  float this is the comparison with 15 alone, for a text it is the phrase test alone, and
  null and booleans never reject. A list or a mapping is rejected when its rendering
  contains a phrase. A rejected record is not admitted.
\<close>

theorem proposal_rule_spec:
  "(\<not> proposal_rule job \<longleftrightarrow>
      truthy (resolve_proposals job) \<and>
      (has_phrase (py_str (resolve_proposals job)) \<or>
       (is_number (resolve_proposals job) \<and> ge_15 (resolve_proposals job)))) \<and>
   (\<forall>n. resolve_proposals job = PInt n \<longrightarrow> (\<not> proposal_rule job \<longleftrightarrow> 15 \<le> n)) \<and>
   (\<forall>f. resolve_proposals job = PFloat f \<longrightarrow>
        (\<not> proposal_rule job \<longleftrightarrow> fl_le (Fin False 15 0) f)) \<and>
   (\<forall>s. resolve_proposals job = PStr s \<longrightarrow> (\<not> proposal_rule job \<longleftrightarrow> has_phrase s)) \<and>
   (resolve_proposals job = PNone \<or> (\<exists>b. resolve_proposals job = PBool b) \<longrightarrow>
      proposal_rule job) \<and>
   (\<not> proposal_rule job \<longrightarrow> keep_job L job vp ms els \<noteq> Inr True)"
proof -
  have int: "\<not> proposal_rule job \<longleftrightarrow> 15 \<le> n" if "resolve_proposals job = PInt n" for n
    using that no_phrase_int [of n] by (auto simp: proposal_rule_iff py_str_def)
  have flt: "\<not> proposal_rule job \<longleftrightarrow> fl_le (Fin False 15 0) f"
    if "resolve_proposals job = PFloat f" for f
  proof -
    have "truthy (PFloat f)" if le: "fl_le (Fin False 15 0) f"
    proof (cases f)
      case (Fin neg m e)
      have "m \<noteq> 0"
      proof
        assume "m = 0"
        then have z: "fin_val neg m e = 0" by (simp add: fin_val_def)
        have "fin_val False 15 0 = 15" by (simp add: fin_val_def)
        moreover from le Fin have "fin_val False 15 0 \<le> fin_val neg m e" by simp
        ultimately show False using z by simp
      qed
      with Fin show ?thesis by simp
    qed simp_all
    then show ?thesis
      using \<open>resolve_proposals job = PFloat f\<close> no_phrase_float [of f]
      by (auto simp: proposal_rule_iff py_str_def)
  qed
  have str: "\<not> proposal_rule job \<longleftrightarrow> has_phrase s" if "resolve_proposals job = PStr s" for s
  proof -
    have "s \<noteq> []" if "has_phrase s"
      using that by (auto simp: has_phrase_def reject_phrases_def)
    then show ?thesis
      using \<open>resolve_proposals job = PStr s\<close> by (auto simp: proposal_rule_iff py_str_def)
  qed
  have none: "proposal_rule job"
    if "resolve_proposals job = PNone \<or> (\<exists>b. resolve_proposals job = PBool b)"
  proof -
    have "\<not> has_phrase ''True''"
      by (rule no_phrase_plain) (simp add: plain_text_Cons)
    then show ?thesis
      using that proposal_rule_iff [of job] by (auto simp: py_str_def)
  qed
  have adm: "\<not> proposal_rule job \<longrightarrow> keep_job L job vp ms els \<noteq> Inr True"
    by (simp add: keep_job_True)
  from proposal_rule_iff [of job] int flt str none adm show ?thesis by blast
qed

theorem proposal_rule_spec_witness:
  "resolve_proposals [(''proposals'', PStr ''20 to 50'')] = PStr ''20 to 50'' \<and>
   has_phrase ''20 to 50'' \<and>
   \<not> proposal_rule [(''proposals'', PStr ''20 to 50'')] \<and>
   keep_job ascii_lib [(''proposals'', PStr ''20 to 50'')] False fl_zero [] \<noteq> Inr True"
proof -
  let ?job = "[(''proposals'', PStr ''20 to 50'')]"
  have r: "resolve_proposals ?job = PStr ''20 to 50''"
    by (simp add: access_defs)
  have p: "has_phrase ''20 to 50''"
    by (simp add: has_phrase_def reject_phrases_def)
  from proposal_rule_spec [of ?job ascii_lib False fl_zero "[]"] r p show ?thesis by simp
qed

text \<open>
  C6 as stated lets every value pass that is neither a number nor a text. A record
  whose \<open>proposals\<close> is the list \<open>["50+"]\<close> is rejected, because the phrase is searched
  in the rendering \<open>['50+']\<close> of the list.
\<close>

theorem proposal_rule_list_rejected:
  "resolve_proposals [(''proposals'', PList [PStr ''50+''])] = PList [PStr ''50+''] \<and>
   py_str (PList [PStr ''50+'']) = [CHR ''['', CHR 0x27, CHR ''5'', CHR ''0'', CHR ''+'', CHR 0x27, CHR '']''] \<and>
   \<not> proposal_rule [(''proposals'', PList [PStr ''50+''])]"
proof -
  have s: "py_str (PList [PStr ''50+'']) = [CHR ''['', CHR 0x27, CHR ''5'', CHR ''0'', CHR ''+'', CHR 0x27, CHR '']'']"
    by (simp add: py_str_def repr_str_def repr_char_def Let_def)
  have r: "resolve_proposals [(''proposals'', PList [PStr ''50+''])] = PList [PStr ''50+'']"
    by (simp add: access_defs)
  have "has_phrase [CHR ''['', CHR 0x27, CHR ''5'', CHR ''0'', CHR ''+'', CHR 0x27, CHR '']'']"
    by (simp add: has_phrase_def reject_phrases_def sublist_Cons_right)
  with s r show ?thesis by (simp add: proposal_rule_iff)
qed

section \<open>The two resolutions of the total spend\<close>

text \<open>
  The resolution of the filter is the field resolver of the specification: the first
  non-null value among the top-level \<open>totalSpent\<close> and \<open>stats.totalSpent\<close>.
\<close>

lemma py_in_dict: "py_in k (PDict c) = Inr (map_of c k \<noteq> None)"
  by (simp add: py_in_def)

lemma client_stat_dict:
  assumes "absent_or_dict c ''stats''"
  shows "client_stat (PDict c) key =
           Inr (if map_of c ''stats'' \<noteq> None then field (dict_get c ''stats'' PNone) key
                else dict_get c key PNone)"
proof (cases "map_of c ''stats''")
  case None
  then show ?thesis by (simp add: client_stat_def py_in_dict)
next
  case (Some v)
  with assms obtain st where "v = PDict st"
    by (cases v) (auto simp: absent_or_dict_def)
  with Some show ?thesis
    by (simp add: client_stat_def py_in_dict dict_get_def field_def)
qed

lemma resolve_total_spent_dict:
  assumes "dict_get job ''client'' (PDict []) = PDict c" and "absent_or_dict c ''stats''"
  shows "resolve_total_spent job =
           Inr (first_present [dict_get c ''totalSpent'' PNone,
                               field (dict_get c ''stats'' PNone) ''totalSpent''])"
proof (cases "map_of c ''stats''")
  case None
  with assms(1) show ?thesis
    by (simp add: resolve_total_spent_def py_in_dict dict_get_def field_def)
next
  case (Some v)
  with assms(2) obtain st where "v = PDict st"
    by (cases v) (auto simp: absent_or_dict_def)
  with Some assms(1) show ?thesis
    by (simp add: resolve_total_spent_def py_in_dict dict_get_def field_def)
qed

text \<open>
  C2. The claim gives the total spend one order in both places: the client's top-level
  \<open>totalSpent\<close> first, \<open>stats.totalSpent\<close> otherwise. The filter keeps that order
  (\<open>resolve_total_spent_dict\<close> above). The transform does not: it takes
  \<open>stats.totalSpent\<close> whenever the client has a \<open>stats\<close> key. For a client with
  \<open>totalSpent = 100\<close> and \<open>stats.totalSpent = 200\<close> the filter reads 100 and the
  transform writes 200; for a client with \<open>totalSpent = 5000\<close> and an empty \<open>stats\<close> the
  filter reads 5000 and the transform writes null.
\<close>

theorem total_spent_order_differs:
  "resolve_total_spent
     [(''client'', PDict [(''totalSpent'', PInt 100),
                          (''stats'', PDict [(''totalSpent'', PInt 200)])])] = Inr (PInt 100) \<and>
   map_sum id client_total_spent
     (transform_job
        [(''client'', PDict [(''totalSpent'', PInt 100),
                             (''stats'', PDict [(''totalSpent'', PInt 200)])])]) = Inr (PInt 200) \<and>
   resolve_total_spent
     [(''client'', PDict [(''totalSpent'', PInt 5000), (''stats'', PDict [])])] =
     Inr (PInt 5000) \<and>
   map_sum id client_total_spent
     (transform_job
        [(''client'', PDict [(''totalSpent'', PInt 5000), (''stats'', PDict [])])]) = Inr PNone"
  by (simp add: resolve_total_spent_def transform_defs access_defs)

section \<open>Totality on well-typed records\<close>

lemma record_ok_client:
  assumes "record_ok job"
  shows "\<exists>c. dict_get job ''client'' (PDict []) = PDict c \<and>
             absent_or_dict c ''location'' \<and> absent_or_dict c ''stats''"
proof (cases "map_of job ''client''")
  case None
  then have "dict_get job ''client'' (PDict []) = PDict []" by (simp add: dict_get_def)
  then show ?thesis by (simp add: absent_or_dict_def)
next
  case (Some v)
  with assms obtain c where c: "v = PDict c"
    by (cases v) (auto simp: record_ok_def absent_or_dict_def)
  with Some assms have "absent_or_dict c ''location'' \<and> absent_or_dict c ''stats''"
    by (simp add: record_ok_def)
  with Some c show ?thesis by (simp add: dict_get_def)
qed

lemma record_ok_level:
  assumes "record_ok job"
  shows "\<exists>lvl. resolve_level job = Inr lvl \<and> str_or_falsy lvl"
proof (cases "truthy (dict_get job ''experienceLevel'' PNone)")
  case True
  with assms show ?thesis by (simp add: resolve_level_def record_ok_def)
next
  case False
  from assms have "absent_or_dict job ''vendor''" by (simp add: record_ok_def)
  then obtain v where v: "dict_get job ''vendor'' (PDict []) = PDict v"
    using absent_or_dict_get by blast
  have "field (dict_get job ''vendor'' PNone) ''experienceLevel'' = dict_get v ''experienceLevel'' PNone"
    using v by (cases "map_of job ''vendor''") (auto simp: dict_get_def field_def)
  with assms have "str_or_falsy (dict_get v ''experienceLevel'' PNone)"
    by (simp add: record_ok_def)
  with False v show ?thesis by (simp add: resolve_level_def)
qed

lemma record_ok_job_id:
  assumes "record_ok job"
  shows "\<exists>jid. derive_job_id job = Inr jid"
proof (cases "\<not> truthy (direct_id job) \<and> truthy (resolve_url job)")
  case True
  with assms obtain u where "resolve_url job = PStr u"
    using str_or_falsy_cases [of "resolve_url job"] by (auto simp: record_ok_def)
  with True show ?thesis
    by (auto simp: derive_job_id_def py_in_def Let_def)
next
  case False
  then show ?thesis by (auto simp: derive_job_id_def Let_def)
qed

lemma record_ok_country:
  assumes "absent_or_dict c ''location''"
  shows "\<exists>v. client_country_of (PDict c) = Inr v"
proof -
  from assms obtain l where "dict_get c ''location'' (PDict []) = PDict l"
    using absent_or_dict_get by blast
  then show ?thesis by (simp add: client_country_of_def)
qed

lemma transform_job_total:
  assumes "record_ok job"
  shows "\<exists>nj. transform_job job = Inr nj"
proof -
  obtain c where c: "dict_get job ''client'' (PDict []) = PDict c"
    "absent_or_dict c ''location''" "absent_or_dict c ''stats''"
    using record_ok_client [OF assms] by blast
  obtain jid where jid: "derive_job_id job = Inr jid"
    using record_ok_job_id [OF assms] by blast
  obtain lvl where lvl: "resolve_level job = Inr lvl"
    using record_ok_level [OF assms] by blast
  obtain country where country: "client_country_of (PDict c) = Inr country"
    using record_ok_country [OF c(2)] by blast
  show ?thesis
    by (simp add: transform_job_def c(1) jid lvl country client_stat_dict [OF c(3)])
qed

lemma keep_job_total:
  assumes "record_ok job"
  shows "\<exists>k. keep_job L job vp ms els = Inr k"
proof -
  obtain c where c: "dict_get job ''client'' (PDict []) = PDict c"
    "absent_or_dict c ''stats''"
    using record_ok_client [OF assms] by blast
  have v: "\<exists>b. verified_rule job vp = Inr b"
    by (auto simp: verified_rule_def is_verified_def c(1) Let_def)
  have s: "\<exists>b. spent_rule L job ms = Inr b"
    by (auto simp: spent_rule_def resolve_total_spent_dict [OF c])
  obtain lvl where lvl: "resolve_level job = Inr lvl" "str_or_falsy lvl"
    using record_ok_level [OF assms] by blast
  have l: "\<exists>b. level_rule L job els = Inr b"
  proof (cases "truthy lvl")
    case True
    with lvl(2) obtain t where "lvl = PStr t" using str_or_falsy_cases by blast
    with lvl(1) show ?thesis by (auto simp: level_rule_def str_lower_def Let_def)
  next
    case False
    with lvl(1) show ?thesis by (auto simp: level_rule_def)
  qed
  from v s l show ?thesis by (auto simp: keep_job_def)
qed

lemma filter_loop_total:
  assumes "\<forall>j \<in> set jobs. \<exists>k. keep_job L j vp ms els = Inr k"
  shows "\<exists>out. filter_loop L jobs vp ms els acc = Inr out"
  using assms
proof (induction jobs arbitrary: acc)
  case Nil
  show ?case by simp
next
  case (Cons j jobs)
  then obtain k where "keep_job L j vp ms els = Inr k" by auto
  with Cons show ?case by simp
qed

lemma cutoff_time_window: "window_ok now d \<Longrightarrow> cutoff_time now d = Inr (now - d)"
  by (simp add: window_ok_def cutoff_time_def)

text \<open>
  C1, as amended. On a well-typed record (\<open>client\<close> and \<open>vendor\<close> absent or mappings,
  the client's \<open>location\<close> and \<open>stats\<close> absent or mappings, the experience levels and
  the public URL texts or false values) \<open>transform_job\<close> returns a job and the loop body
  of \<open>filter_jobs\<close> returns a decision; a scalar field is passed through as it is, and a
  missing one becomes null (the empty list for \<open>skills\<close>). On a list of such records
  and with a cutoff date inside the calendar, \<open>filter_jobs\<close> returns a list.
\<close>

theorem well_typed_never_raises:
  "(record_ok job \<longrightarrow>
      (\<exists>nj. transform_job job = Inr nj \<and>
            title nj = dict_get job ''title'' PNone \<and>
            description nj = dict_get job ''description'' PNone \<and>
            skills nj = dict_get job ''skills'' (PList []) \<and>
            budget nj = dict_get job ''budget'' PNone) \<and>
      (\<exists>k. keep_job L job vp ms els = Inr k)) \<and>
   (window_ok now days_back \<and> (\<forall>j \<in> set jobs. record_ok j) \<longrightarrow>
      (\<exists>out. filter_jobs L now jobs vp ms els days_back = Inr out))"
proof -
  have t: "\<exists>nj. transform_job job = Inr nj \<and>
            title nj = dict_get job ''title'' PNone \<and>
            description nj = dict_get job ''description'' PNone \<and>
            skills nj = dict_get job ''skills'' (PList []) \<and>
            budget nj = dict_get job ''budget'' PNone" if "record_ok job"
  proof -
    from that obtain nj where nj: "transform_job job = Inr nj"
      using transform_job_total by blast
    then have "title nj = dict_get job ''title'' PNone \<and>
            description nj = dict_get job ''description'' PNone \<and>
            skills nj = dict_get job ''skills'' (PList []) \<and>
            budget nj = dict_get job ''budget'' PNone"
      by (auto simp: transform_job_def ebind_eq_Inr Let_def)
    with nj show ?thesis by blast
  qed
  have f: "\<exists>out. filter_jobs L now jobs vp ms els days_back = Inr out"
    if "window_ok now days_back" "\<forall>j \<in> set jobs. record_ok j"
  proof -
    from that(2) have "\<forall>j \<in> set jobs. \<exists>k. keep_job L j vp ms els = Inr k"
      using keep_job_total by blast
    then show ?thesis
      using filter_loop_total [of jobs L vp ms els "[]"]
      by (simp add: filter_jobs_def cutoff_time_window [OF that(1)])
  qed
  from t f keep_job_total [of job L vp ms els] show ?thesis by blast
qed


theorem well_typed_never_raises_witness:
  "record_ok [(''title'', PStr ''Build a bot''),
              (''client'', PDict [(''stats'', PDict [(''totalSpent'', PInt 5000)])])] \<and>
   (\<exists>nj. transform_job [(''title'', PStr ''Build a bot''),
              (''client'', PDict [(''stats'', PDict [(''totalSpent'', PInt 5000)])])] = Inr nj \<and>
         title nj = PStr ''Build a bot'' \<and> skills nj = PList []) \<and>
   (\<exists>out. filter_jobs ascii_lib 739924
            [[(''title'', PStr ''Build a bot''),
              (''client'', PDict [(''stats'', PDict [(''totalSpent'', PInt 5000)])])]]
            True (Fin False 1000 0) [''expert''] 1 = Inr out)"
proof -
  let ?job = "[(''title'', PStr ''Build a bot''),
               (''client'', PDict [(''stats'', PDict [(''totalSpent'', PInt 5000)])])]"
  have ok: "record_ok ?job"
    by (simp add: record_ok_def absent_or_dict_def str_or_falsy_def field_def access_defs)
  have w: "window_ok 739924 1"
    by (simp add: window_ok_def MAXORDINAL_def)
  from well_typed_never_raises [of ?job ascii_lib True "Fin False 1000 0" "[''expert'']" 739924 1 "[?job]"]
    ok w
  show ?thesis by (auto simp: dict_get_def)
qed

text \<open>
  C1 as stated covers records whose \<open>client\<close> is a number. On such a record
  both functions raise \<open>AttributeError\<close>: a number has no \<open>get\<close>.
\<close>

theorem non_mapping_client_raises:
  "transform_job [(''client'', PInt 5)] = Inl AttributeError \<and>
   keep_job ascii_lib [(''client'', PInt 5)] True fl_zero [] = Inl AttributeError"
  by (simp add: transform_defs filter_defs access_defs)

section \<open>Two runs of the filter\<close>

lemma filter_loop_Inr:
  "filter_loop L jobs vp ms els acc = Inr out \<Longrightarrow>
   out = acc @ filter (\<lambda>j. keep_job L j vp ms els = Inr True) jobs"
proof (induction jobs arbitrary: acc)
  case Nil
  then show ?case by simp
next
  case (Cons j jobs)
  from Cons.prems obtain keep where k: "keep_job L j vp ms els = Inr keep"
    and rest: "filter_loop L jobs vp ms els (if keep then acc @ [j] else acc) = Inr out"
    by (auto split: sum.splits)
  from Cons.IH [OF rest] k show ?case by (cases keep) simp_all
qed

lemma filter_jobs_Inr:
  "filter_jobs L now jobs vp ms els d = Inr out \<Longrightarrow>
   out = filter (\<lambda>j. keep_job L j vp ms els = Inr True) jobs"
  using filter_loop_Inr [of L jobs vp ms els "[]" out]
  by (auto simp: filter_jobs_def ebind_eq_Inr)

text \<open>
  C10, as amended. Two runs of \<open>filter_jobs\<close> that differ only in \<open>days_back\<close> give
  the same result, provided both cutoff dates lie inside the calendar (years 1 to 9999):
  the cutoff is computed and then never consulted.
\<close>

theorem days_back_unused:
  assumes "window_ok now d1" and "window_ok now d2"
  shows "filter_jobs L now jobs vp ms els d1 = filter_jobs L now jobs vp ms els d2"
  using assms by (simp add: filter_jobs_def cutoff_time_window)

theorem days_back_unused_witness:
  "window_ok 739924 1 \<and> window_ok 739924 30 \<and>
   filter_jobs ascii_lib 739924 [[(''proposals'', PInt 3)], [(''proposals'', PInt 20)]] False fl_zero [] 1 =
   filter_jobs ascii_lib 739924 [[(''proposals'', PInt 3)], [(''proposals'', PInt 20)]] False fl_zero [] 30"
proof -
  have w1: "window_ok 739924 1" and w2: "window_ok 739924 30"
    by (simp_all add: window_ok_def MAXORDINAL_def)
  from days_back_unused [OF w1 w2] w1 w2 show ?thesis by simp
qed

text \<open>
  C10 as stated holds for every \<open>days_back\<close>. On 2026-11-04 (ordinal 739924) a
  window of one day returns the list, and a window of 1000000 days raises
  \<open>OverflowError\<close> when the cutoff is computed, before any record is looked at.
\<close>

theorem days_back_overflow:
  "filter_jobs ascii_lib 739924 [[]] False fl_zero [] 1 = Inr [[]] \<and>
   filter_jobs ascii_lib 739924 [[]] False fl_zero [] 1000000 = Inl OverflowError"
  by (simp add: filter_jobs_def cutoff_time_def MAXORDINAL_def filter_defs access_defs
        fin_val_def)


lemma fl_lt_le_trans: "fl_lt x a \<Longrightarrow> fl_le a b \<Longrightarrow> fl_lt x b"
  by (cases x; cases a; cases b) auto

lemma spent_rule_mono:
  assumes le: "fl_le ms ms'" and tight: "spent_rule L job ms' = Inr True"
  shows "spent_rule L job ms = Inr True"
proof (cases "fl_lt fl_zero ms")
  case False
  then show ?thesis by (simp add: spent_rule_def)
next
  case True
  from True le have pos': "fl_lt fl_zero ms'" by (rule fl_lt_le_trans)
  with tight obtain ts where ts: "resolve_total_spent job = Inr ts"
    and ok: "\<not> fl_lt (coerce_spent L ts) ms'"
    by (auto simp: spent_rule_def ebind_eq_Inr)
  have "\<not> fl_lt (coerce_spent L ts) ms"
    using ok le fl_lt_le_trans by blast
  with True ts show ?thesis by (simp add: spent_rule_def)
qed

lemma level_rule_mono:
  assumes narrow: "els' \<noteq> []" "els = [] \<or> set els' \<subseteq> set els"
    and tight: "level_rule L job els' = Inr True"
  shows "level_rule L job els = Inr True"
proof -
  from tight obtain lvl where lvl: "resolve_level job = Inr lvl"
    by (auto simp: level_rule_def ebind_eq_Inr)
  show ?thesis
  proof (cases "els \<noteq> [] \<and> truthy lvl")
    case False
    with lvl show ?thesis by (auto simp: level_rule_def)
  next
    case True
    with narrow(2) have sub: "set els' \<subseteq> set els" by simp
    from tight lvl True narrow(1) obtain low where low: "str_lower L lvl = Inr low"
      and mem: "low \<in> (\<lambda>l. lib_lower L (lib_strip L l)) ` set els'"
      by (auto simp: level_rule_def Let_def ebind_eq_Inr)
    from mem sub have "low \<in> (\<lambda>l. lib_lower L (lib_strip L l)) ` set els" by blast
    with lvl True low show ?thesis by (simp add: level_rule_def Let_def)
  qed
qed

lemma keep_job_mono:
  assumes "tightens vp ms els vp' ms' els'"
    and "keep_job L job vp' ms' els' = Inr True"
  shows "keep_job L job vp ms els = Inr True"
proof -
  from assms(2) have t: "verified_rule job vp' = Inr True" "spent_rule L job ms' = Inr True"
    "level_rule L job els' = Inr True" "proposal_rule job"
    by (simp_all add: keep_job_True)
  from assms(1) consider
      (spend) "vp' = vp" "els' = els" "fl_le ms ms'"
    | (level) "vp' = vp" "ms' = ms" "els' \<noteq> []" "els = [] \<or> set els' \<subseteq> set els"
    | (verified) "ms' = ms" "els' = els" "\<not> vp" "vp'"
    by (auto simp: tightens_def)
  then show ?thesis
  proof cases
    case spend
    with t spent_rule_mono [OF spend(3) t(2)] show ?thesis by (simp add: keep_job_True)
  next
    case level
    with t level_rule_mono [OF level(3,4) t(3)] show ?thesis by (simp add: keep_job_True)
  next
    case verified
    with t show ?thesis by (simp add: keep_job_True verified_rule_def)
  qed
qed

text \<open>
  C9, as amended. One threshold is tightened and the run under the tighter configuration
  returns. Then the loop body admits each of its records under the looser configuration
  too, and whenever the run under the looser configuration returns, the records admitted
  under the tighter one are among those it admits.
\<close>

theorem filter_monotone:
  assumes "tightens vp ms els vp' ms' els'"
    and "filter_jobs L now jobs vp' ms' els' days_back = Inr tight"
  shows "(\<forall>j \<in> set tight. keep_job L j vp ms els = Inr True) \<and>
         (\<forall>loose. filter_jobs L now jobs vp ms els days_back = Inr loose \<longrightarrow>
            set tight \<subseteq> set loose)"
proof -
  have t: "tight = filter (\<lambda>j. keep_job L j vp' ms' els' = Inr True) jobs"
    using assms(2) by (rule filter_jobs_Inr)
  then have each: "\<forall>j \<in> set tight. keep_job L j vp ms els = Inr True"
    using keep_job_mono [OF assms(1)] by auto
  have "set tight \<subseteq> set loose"
    if "filter_jobs L now jobs vp ms els days_back = Inr loose" for loose
  proof -
    have "loose = filter (\<lambda>j. keep_job L j vp ms els = Inr True) jobs"
      using that by (rule filter_jobs_Inr)
    with t each show ?thesis by auto
  qed
  with each show ?thesis by blast
qed

theorem filter_monotone_witness:
  "tightens False (Fin False 500 0) [] False (Fin False 1000 0) [] \<and>
   filter_jobs ascii_lib 739924
     [[(''client'', PDict [(''totalSpent'', PInt 700)])],
      [(''client'', PDict [(''totalSpent'', PInt 5000)])]]
     False (Fin False 1000 0) [] 1 = Inr [[(''client'', PDict [(''totalSpent'', PInt 5000)])]] \<and>
   filter_jobs ascii_lib 739924
     [[(''client'', PDict [(''totalSpent'', PInt 700)])],
      [(''client'', PDict [(''totalSpent'', PInt 5000)])]]
     False (Fin False 500 0) [] 1 =
     Inr [[(''client'', PDict [(''totalSpent'', PInt 700)])],
          [(''client'', PDict [(''totalSpent'', PInt 5000)])]] \<and>
   set [[(''client'', PDict [(''totalSpent'', PInt 5000)])]] \<subseteq>
   set [[(''client'', PDict [(''totalSpent'', PInt 700)])],
        [(''client'', PDict [(''totalSpent'', PInt 5000)])]]"
proof -
  let ?a = "[(''client'', PDict [(''totalSpent'', PInt 700)])]"
  let ?b = "[(''client'', PDict [(''totalSpent'', PInt 5000)])]"
  have c700: "coerce_spent ascii_lib (PInt 700) = Fin False 700 0"
    by (simp add: coerce_spent_def ascii_lib_def py_or_def py_str_def str_defs float_defs)
  have c5000: "coerce_spent ascii_lib (PInt 5000) = Fin False 5000 0"
    by (simp add: coerce_spent_def ascii_lib_def py_or_def py_str_def str_defs float_defs)
  have h1: "tightens False (Fin False 500 0) [] False (Fin False 1000 0) []"
    by (simp add: tightens_def fin_val_def)
  have h2: "filter_jobs ascii_lib 739924 [?a, ?b] False (Fin False 1000 0) [] 1 = Inr [?b]"
    by (simp add: filter_jobs_def cutoff_time_def MAXORDINAL_def keep_job_def verified_rule_def
          spent_rule_def resolve_total_spent_def level_rule_def proposal_rule_def access_defs
          c700 c5000 fl_zero_def fin_val_def)
  have h3: "filter_jobs ascii_lib 739924 [?a, ?b] False (Fin False 500 0) [] 1 = Inr [?a, ?b]"
    by (simp add: filter_jobs_def cutoff_time_def MAXORDINAL_def keep_job_def verified_rule_def
          spent_rule_def resolve_total_spent_def level_rule_def proposal_rule_def access_defs
          c700 c5000 fl_zero_def fin_val_def)
  from filter_monotone [OF h1 h2] h1 h2 h3 show ?thesis by simp
qed

text \<open>
  C9 as stated holds for every list, also where a run raises. With the allow-set
  \<open>expert\<close>, a record whose \<open>experienceLevel\<close> is the number 5 and whose client spent
  700 is rejected by the minimum spend 1000 before its level is read, and the run admits
  the other record. With the minimum spend 500 the same record reaches
  \<open>job_level.lower()\<close>, which raises, and the run admits nothing.
\<close>

theorem looser_run_raises:
  "tightens False (Fin False 500 0) [''expert''] False (Fin False 1000 0) [''expert''] \<and>
   filter_jobs ascii_lib 739924
     [[(''client'', PDict [(''totalSpent'', PInt 700)]), (''experienceLevel'', PInt 5)],
      [(''client'', PDict [(''totalSpent'', PInt 5000)])]]
     False (Fin False 1000 0) [''expert''] 1 =
     Inr [[(''client'', PDict [(''totalSpent'', PInt 5000)])]] \<and>
   filter_jobs ascii_lib 739924
     [[(''client'', PDict [(''totalSpent'', PInt 700)]), (''experienceLevel'', PInt 5)],
      [(''client'', PDict [(''totalSpent'', PInt 5000)])]]
     False (Fin False 500 0) [''expert''] 1 = Inl AttributeError"
proof -
  have c700: "coerce_spent ascii_lib (PInt 700) = Fin False 700 0"
    by (simp add: coerce_spent_def ascii_lib_def py_or_def py_str_def str_defs float_defs)
  have c5000: "coerce_spent ascii_lib (PInt 5000) = Fin False 5000 0"
    by (simp add: coerce_spent_def ascii_lib_def py_or_def py_str_def str_defs float_defs)
  show ?thesis
    by (simp add: tightens_def filter_jobs_def cutoff_time_def MAXORDINAL_def keep_job_def
          verified_rule_def spent_rule_def resolve_total_spent_def level_rule_def
          proposal_rule_def access_defs c700 c5000 fl_zero_def fin_val_def)
qed

end
